theory Spec2Isabelle
  imports Complex_Main "HOL-Library.AList" "HOL-Library.Log_Nat"
begin

section \<open>JavaScript values\<close>

text \<open>
  The store of \<^verbatim>\<open>src/store/useFlowStore.ts\<close> keeps plain JavaScript data: arrays of
  node and edge objects and the value that \<^verbatim>\<open>JSON.parse\<close> returns. A value is a tree.
  An object is an association list in property order (a well-formed object has distinct
  keys; every operation below reads the first binding of a key and writes it in place).
  A number is a rational: every finite double is one (\<^verbatim>\<open>NaN\<close> and the infinities are
  not modelled), and the result of an arithmetic operation is rounded to a double by
  \<open>fl\<close> below.
\<close>

datatype jsval =
    JUndefined
  | JNull
  | JBool bool
  | JNum rat
  | JStr string
  | JArr "jsval list"
  | JObj "(string \<times> jsval) list"

type_synonym jsobj = "(string \<times> jsval) list"

datatype js_error = TypeError | SyntaxError | QuotaExceededError | Error string

subsection \<open>Numbers\<close>

text \<open>
  A double is an integer of less than 53 bits times a power of two. \<open>fl x\<close> is the double
  that an operation with the exact result \<open>x\<close> returns: \<open>x\<close> rounded to 53 significant
  bits, to the nearest, a tie to the even one. \<open>binade x\<close> is the exponent \<open>e\<close> with
  \<open>2\<^sup>e \<le> |x| < 2\<^sup>e\<^sup>+\<^sup>1\<close>. The exponent is not bounded here: there is no overflow and no
  gradual underflow, and the numbers of the store stay far from both.
\<close>

definition round_half_even :: "rat \<Rightarrow> int" where
  "round_half_even q =
     (let k = \<lfloor>q\<rfloor>; r = q - of_int k
      in if r < 1 / 2 then k else if 1 / 2 < r then k + 1 else if even k then k else k + 1)"

definition binade :: "rat \<Rightarrow> int" where
  "binade x =
     (let (p, q) = quotient_of \<bar>x\<bar>; d = bitlen p - bitlen q
      in if 2 powi d \<le> \<bar>x\<bar> then d else d - 1)"

definition fl :: "rat \<Rightarrow> rat" where
  "fl x = (if x = 0 then 0
           else let u = 2 powi (binade x - 52)
                in of_int (round_half_even (x / u)) * u)"

definition doubles :: "rat set" where
  "doubles = {of_int m * 2 powi q | m q. \<bar>m\<bar> < 2 ^ 53}"

subsection \<open>Objects\<close>

text \<open>\<^verbatim>\<open>o.k\<close> on an object: the value bound to the key, \<^verbatim>\<open>undefined\<close> when absent.\<close>

definition obj_get :: "jsobj \<Rightarrow> string \<Rightarrow> jsval" where
  "obj_get ob k = (case map_of ob k of None \<Rightarrow> JUndefined | Some v \<Rightarrow> v)"

text \<open>
  \<^verbatim>\<open>v.k\<close> on any value, for a name \<open>k\<close> that no prototype defines (the store reads only
  \<^verbatim>\<open>nodes\<close> and \<^verbatim>\<open>edges\<close> this way): reading a property of \<^verbatim>\<open>null\<close> or \<^verbatim>\<open>undefined\<close>
  throws a TypeError, a primitive or an array has no such property.
\<close>

fun get_prop :: "jsval \<Rightarrow> string \<Rightarrow> js_error + jsval" where
  "get_prop JUndefined k = Inl TypeError"
| "get_prop JNull k = Inl TypeError"
| "get_prop (JObj ob) k = Inr (obj_get ob k)"
| "get_prop v k = Inr JUndefined"

text \<open>A parsed value has a field when it is an object with that key.\<close>

fun has_field :: "jsval \<Rightarrow> string \<Rightarrow> bool" where
  "has_field (JObj ob) k = (map_of ob k \<noteq> None)"
| "has_field v k = False"

text \<open>The truthiness that \<^verbatim>\<open>if\<close>, \<^verbatim>\<open>&&\<close> and \<^verbatim>\<open>!\<close> test.\<close>

fun truthy :: "jsval \<Rightarrow> bool" where
  "truthy JUndefined = False"
| "truthy JNull = False"
| "truthy (JBool b) = b"
| "truthy (JNum n) = (n \<noteq> 0)"
| "truthy (JStr s) = (s \<noteq> [])"
| "truthy (JArr vs) = True"
| "truthy (JObj ob) = True"

text \<open>Decimal digits of a natural number, as a template literal prints an integer.\<close>

definition digit_char :: "nat \<Rightarrow> char" where
  "digit_char n = ''0123456789'' ! n"

fun show_nat :: "nat \<Rightarrow> string" where
  "show_nat n = (if n < 10 then [digit_char n] else show_nat (n div 10) @ [digit_char (n mod 10)])"

definition show_int :: "int \<Rightarrow> string" where
  "show_int i = (if i < 0 then CHR ''-'' # show_nat (nat (- i)) else show_nat (nat i))"

text \<open>
  The own enumerable properties that an object spread \<^verbatim>\<open>{...v}\<close> copies: those of an
  object, the indexed elements of an array or a string, nothing for the other values.
\<close>

fun own_props :: "jsval \<Rightarrow> jsobj" where
  "own_props (JObj ob) = ob"
| "own_props (JArr vs) = zip (map show_nat [0..<length vs]) vs"
| "own_props (JStr s) = zip (map show_nat [0..<length s]) (map (\<lambda>c. JStr [c]) s)"
| "own_props v = []"

text \<open>
  \<^verbatim>\<open>{...a, ...b}\<close> and \<^verbatim>\<open>{...a, k: v}\<close>: the properties of \<open>b\<close> are assigned onto a copy
  of \<open>a\<close> in order; an existing key keeps its place and takes the new value, a new key
  is appended.
\<close>

definition spread :: "jsobj \<Rightarrow> jsobj \<Rightarrow> jsobj" where
  "spread a b = foldl (\<lambda>acc (k, v). AList.update k v acc) a b"

section \<open>The store\<close>

text \<open>
  \<^verbatim>\<open>FlowState\<close>: the two collections and the selection, typed as the interface declares
  them (\<^verbatim>\<open>Node<NodeData>[]\<close>, \<^verbatim>\<open>Edge[]\<close>, \<^verbatim>\<open>Node<NodeData> | null\<close>), together with what
  the actions touch outside the store: the local storage, the timers set with
  \<^verbatim>\<open>setTimeout\<close> (each one calls \<^verbatim>\<open>saveToLocalStorage\<close>; the list holds their delays),
  the lines written with \<^verbatim>\<open>console.error\<close> and the alerts shown. The three handlers that
  hand the collections to the rendering library (\<^verbatim>\<open>onNodesChange\<close>, \<^verbatim>\<open>onEdgesChange\<close>,
  \<^verbatim>\<open>onConnect\<close>) are not part of this development.
\<close>

record world =
  nodes :: "jsobj list"
  edges :: "jsobj list"
  selectedNode :: "jsobj option"
  localStorage :: "string \<Rightarrow> string option"
  timers :: "nat list"
  console_errors :: "string list"
  alerts :: "string list"

definition STORAGE_KEY :: string where
  "STORAGE_KEY = ''reactflow-workflow''"

text \<open>\<^verbatim>\<open>setTimeout(() => get().saveToLocalStorage(), 100)\<close>\<close>

definition schedule_save :: "world \<Rightarrow> world" where
  "schedule_save w = w\<lparr>timers := timers w @ [100]\<rparr>"

text \<open>\<^verbatim>\<open>get().selectedNode?.id\<close>\<close>

definition selected_id :: "world \<Rightarrow> jsval" where
  "selected_id w = (case selectedNode w of None \<Rightarrow> JUndefined | Some n \<Rightarrow> obj_get n ''id'')"

subsection \<open>deleteNode\<close>

definition deleteNode :: "string \<Rightarrow> world \<Rightarrow> world" where
  "deleteNode nodeId w =
     schedule_save (w\<lparr>
       nodes := filter (\<lambda>node. obj_get node ''id'' \<noteq> JStr nodeId) (nodes w),
       edges := filter (\<lambda>edge. obj_get edge ''source'' \<noteq> JStr nodeId
                              \<and> obj_get edge ''target'' \<noteq> JStr nodeId) (edges w),
       selectedNode := (if selected_id w = JStr nodeId then None else selectedNode w)\<rparr>)"

subsection \<open>onNodeClick, setSelectedNode, clearFlow\<close>

definition onNodeClick :: "jsobj \<Rightarrow> world \<Rightarrow> world" where
  "onNodeClick node w = w\<lparr>selectedNode := Some node\<rparr>"

definition setSelectedNode :: "jsobj option \<Rightarrow> world \<Rightarrow> world" where
  "setSelectedNode node w = w\<lparr>selectedNode := node\<rparr>"

definition clearFlow :: "world \<Rightarrow> world" where
  "clearFlow w = schedule_save (w\<lparr>nodes := [], edges := [], selectedNode := None\<rparr>)"

subsection \<open>addNode\<close>

text \<open>
  \<open>now\<close> is the value of \<^verbatim>\<open>Date.now()\<close> at the call, \<open>rnd\<close> the two results of
  \<^verbatim>\<open>Math.random()\<close> that the default position draws (\<open>x\<close> first), \<open>position\<close> the
  argument (\<open>None\<close> when omitted). Integers print as their decimal digits, as they do
  below \<open>10\<^sup>2\<^sup>1\<close>.
\<close>

definition addNode :: "int \<Rightarrow> rat \<times> rat \<Rightarrow> jsobj option \<Rightarrow> world \<Rightarrow> world" where
  "addNode now rnd position w =
     (let position' = (case position of
                         None \<Rightarrow> [(''x'', JNum (fl (fst rnd * 500))),
                                  (''y'', JNum (fl (snd rnd * 500)))]
                       | Some p \<Rightarrow> p);
          newNode = [(''id'', JStr (''node-'' @ show_int now)),
                     (''position'', JObj position'),
                     (''data'', JObj [(''label'', JStr (''Node '' @ show_nat (length (nodes w) + 1))),
                                      (''description'', JStr ''New node'')]),
                     (''type'', JStr ''default'')]
      in schedule_save (w\<lparr>nodes := nodes w @ [newNode]\<rparr>))"

text \<open>A sequence of \<^verbatim>\<open>addNode\<close> calls, each with its own clock reading, draws and argument.\<close>

definition addNode_calls :: "(int \<times> (rat \<times> rat) \<times> jsobj option) list \<Rightarrow> world \<Rightarrow> world" where
  "addNode_calls calls w = foldl (\<lambda>w' (now, rnd, position). addNode now rnd position w') w calls"

subsection \<open>updateNode\<close>

text \<open>The properties of \<^verbatim>\<open>node.data\<close>, as the spread \<^verbatim>\<open>...node.data\<close> reads them.\<close>

definition payload :: "jsobj \<Rightarrow> jsobj" where
  "payload node = own_props (obj_get node ''data'')"

text \<open>\<^verbatim>\<open>{ ...node, data: { ...node.data, ...data } }\<close>\<close>

definition merge_data :: "jsobj \<Rightarrow> jsobj \<Rightarrow> jsobj" where
  "merge_data node data = spread node [(''data'', JObj (spread (payload node) data))]"

definition updateNode :: "string \<Rightarrow> jsobj \<Rightarrow> world \<Rightarrow> world" where
  "updateNode nodeId data w =
     (let w1 = w\<lparr>nodes := map (\<lambda>node. if obj_get node ''id'' = JStr nodeId
                                       then merge_data node data
                                       else node) (nodes w)\<rparr>;
          w2 = (case selectedNode w1 of
                  None \<Rightarrow> w1
                | Some selected \<Rightarrow>
                    if obj_get selected ''id'' = JStr nodeId
                    then w1\<lparr>selectedNode := Some (merge_data selected data)\<rparr>
                    else w1)
      in schedule_save w2)"

subsection \<open>toggleNodeVisibility\<close>

text \<open>\<^verbatim>\<open>{ ...node, hidden: !node.hidden }\<close>\<close>

definition toggle_hidden :: "jsobj \<Rightarrow> jsobj" where
  "toggle_hidden node = spread node [(''hidden'', JBool (\<not> truthy (obj_get node ''hidden'')))]"

definition toggleNodeVisibility :: "string \<Rightarrow> world \<Rightarrow> world" where
  "toggleNodeVisibility nodeId w =
     schedule_save (w\<lparr>nodes := map (\<lambda>node. if obj_get node ''id'' = JStr nodeId
                                             then toggle_hidden node
                                             else node) (nodes w)\<rparr>)"

subsection \<open>generateBulkNodes\<close>

text \<open>
  \<^verbatim>\<open>count\<close> is a natural number below \<open>2\<^sup>5\<^sup>3\<close>, where the loop counter \<^verbatim>\<open>i++\<close> is exact.
  \<^verbatim>\<open>Math.ceil(Math.sqrt(count))\<close>, on the real square root. (On doubles the result is the
  same for every count below \<open>2\<^sup>5\<^sup>2\<close>.)
\<close>

definition gridSize_of :: "nat \<Rightarrow> nat" where
  "gridSize_of count = nat \<lceil>sqrt (real count)\<rceil>"

definition spacing :: nat where
  "spacing = 200"

text \<open>
  The node pushed by iteration \<open>i\<close>. \<open>now i\<close> is what \<^verbatim>\<open>Date.now()\<close> returns in that
  iteration (the source reads the clock once per node), \<open>rand k\<close> the result of the
  \<open>k\<close>-th call of \<^verbatim>\<open>Math.random()\<close> after the start of the loop, counted from 0: iteration \<open>i\<close>
  draws \<open>2 * i\<close> for \<open>x\<close>, then \<open>2 * i + 1\<close> for \<open>y\<close>. The body runs only for \<open>i < count\<close>,
  so \<open>gridSize\<close> is positive and \<^verbatim>\<open>Math.floor(i / gridSize)\<close> is the integer quotient.
  Each coordinate takes three operations on doubles, two products and their sum, and
  each of them rounds.
\<close>

definition bulk_node :: "(nat \<Rightarrow> int) \<Rightarrow> (nat \<Rightarrow> rat) \<Rightarrow> nat \<Rightarrow> nat \<Rightarrow> jsobj" where
  "bulk_node now rand gridSize i =
     (let row = i div gridSize;
          col = i mod gridSize
      in [(''id'', JStr (''bulk-node-'' @ show_int (now i) @ ''-'' @ show_nat i)),
          (''position'',
             JObj [(''x'', JNum (fl (fl (of_nat col * of_nat spacing) + fl (rand (2 * i) * 50)))),
                   (''y'', JNum (fl (fl (of_nat row * of_nat spacing) + fl (rand (2 * i + 1) * 50))))]),
          (''data'', JObj [(''label'', JStr (''Node '' @ show_nat (i + 1))),
                           (''description'', JStr (''Bulk generated node '' @ show_nat (i + 1)))]),
          (''type'', JStr ''default'')])"

function bulk_loop ::
  "(nat \<Rightarrow> int) \<Rightarrow> (nat \<Rightarrow> rat) \<Rightarrow> nat \<Rightarrow> nat \<Rightarrow> nat \<Rightarrow> jsobj list \<Rightarrow> jsobj list" where
  "bulk_loop now rand gridSize count i newNodes =
     (if i < count
      then bulk_loop now rand gridSize count (i + 1) (newNodes @ [bulk_node now rand gridSize i])
      else newNodes)"
  by pat_completeness auto
termination
  by (relation "measure (\<lambda>(now, rand, gridSize, count, i, newNodes). count - i)") auto

definition generateBulkNodes :: "(nat \<Rightarrow> int) \<Rightarrow> (nat \<Rightarrow> rat) \<Rightarrow> nat \<Rightarrow> world \<Rightarrow> world" where
  "generateBulkNodes now rand count w =
     (let newNodes = bulk_loop now rand (gridSize_of count) count 0 []
      in schedule_save (w\<lparr>nodes := nodes w @ newNodes\<rparr>))"

subsection \<open>The platform: JSON and the storage quota\<close>

text \<open>
  \<^verbatim>\<open>JSON.stringify\<close>, \<^verbatim>\<open>JSON.parse\<close> and \<^verbatim>\<open>localStorage.setItem\<close> belong to the browser, not to
  the repository; the actions take them as parameters. \<open>JSON_stringify space v\<close> is
  \<^verbatim>\<open>JSON.stringify(v, null, space)\<close> (\<open>space = 0\<close> when the argument is omitted),
  \<open>JSON_parse text\<close> is \<open>None\<close> when \<^verbatim>\<open>JSON.parse(text)\<close> throws its SyntaxError, and
  \<open>storage_accepts key text\<close> tells whether the storage has room for the write.
\<close>

record platform =
  JSON_stringify :: "nat \<Rightarrow> jsval \<Rightarrow> string"
  JSON_parse :: "string \<Rightarrow> jsval option"
  storage_accepts :: "string \<Rightarrow> string \<Rightarrow> bool"

definition setItem ::
  "platform \<Rightarrow> string \<Rightarrow> string \<Rightarrow> (string \<Rightarrow> string option) \<Rightarrow> js_error + (string \<Rightarrow> string option)" where
  "setItem P key text st =
     (if storage_accepts P key text then Inr (st(key \<mapsto> text)) else Inl QuotaExceededError)"

text \<open>\<^verbatim>\<open>try { body } catch (error) { handler }\<close>\<close>

definition try_catch :: "js_error + 'a \<Rightarrow> (js_error \<Rightarrow> js_error + 'a) \<Rightarrow> js_error + 'a" where
  "try_catch body handler = (case body of Inl error \<Rightarrow> handler error | Inr v \<Rightarrow> Inr v)"

text \<open>
  The store is typed, the value that \<^verbatim>\<open>JSON.parse\<close> returns is not, and
  \<^verbatim>\<open>set({ nodes, edges, selectedNode: null })\<close> stores it unchecked. The typed view of a
  parsed value is an array of objects; when a stored value has no typed view the call
  still returns, with a store that is no \<^verbatim>\<open>FlowState\<close> any more: \<open>Untyped\<close> holds the two
  values and the model follows such a store no further.
\<close>

fun as_object :: "jsval \<Rightarrow> jsobj option" where
  "as_object (JObj ob) = Some ob"
| "as_object v = None"

fun as_objects :: "jsval \<Rightarrow> jsobj list option" where
  "as_objects (JArr vs) = those (map as_object vs)"
| "as_objects v = None"

datatype after_set = Typed world | Untyped jsval jsval

definition set_collections :: "jsval \<Rightarrow> jsval \<Rightarrow> world \<Rightarrow> after_set" where
  "set_collections nodes' edges' w =
     (case (as_objects nodes', as_objects edges') of
        (Some ns, Some es) \<Rightarrow> Typed (w\<lparr>nodes := ns, edges := es, selectedNode := None\<rparr>)
      | _ \<Rightarrow> Untyped nodes' edges')"

fun map_typed :: "(world \<Rightarrow> world) \<Rightarrow> after_set \<Rightarrow> after_set" where
  "map_typed f (Typed w) = Typed (f w)"
| "map_typed f (Untyped n e) = Untyped n e"

subsection \<open>saveToLocalStorage, loadFromLocalStorage\<close>

definition state_doc :: "world \<Rightarrow> jsval" where
  "state_doc w = JObj [(''nodes'', JArr (map JObj (nodes w))),
                       (''edges'', JArr (map JObj (edges w)))]"

definition saveToLocalStorage :: "platform \<Rightarrow> world \<Rightarrow> js_error + world" where
  "saveToLocalStorage P w =
     try_catch
       (case setItem P STORAGE_KEY (JSON_stringify P 0 (state_doc w)) (localStorage w) of
          Inl error \<Rightarrow> Inl error
        | Inr st \<Rightarrow> Inr (w\<lparr>localStorage := st\<rparr>))
       (\<lambda>error. Inr (w\<lparr>console_errors := console_errors w @ [''Failed to save to localStorage:'']\<rparr>))"

definition loadFromLocalStorage :: "platform \<Rightarrow> world \<Rightarrow> js_error + after_set" where
  "loadFromLocalStorage P w =
     try_catch
       (case localStorage w STORAGE_KEY of
          None \<Rightarrow> Inr (Typed w)
        | Some saved \<Rightarrow>
            if truthy (JStr saved) then
              (case JSON_parse P saved of
                 None \<Rightarrow> Inl SyntaxError
               | Some parsed \<Rightarrow>
                   (case get_prop parsed ''nodes'' of
                      Inl error \<Rightarrow> Inl error
                    | Inr nodes' \<Rightarrow>
                        (case get_prop parsed ''edges'' of
                           Inl error \<Rightarrow> Inl error
                         | Inr edges' \<Rightarrow> Inr (set_collections nodes' edges' w))))
            else Inr (Typed w))
       (\<lambda>error. Inr (Typed (w\<lparr>console_errors :=
                                 console_errors w @ [''Failed to load from localStorage:'']\<rparr>)))"

subsection \<open>exportToJSON, importFromJSON\<close>

text \<open>\<open>exportedAt\<close> is the text that \<^verbatim>\<open>new Date().toISOString()\<close> returns at the call.\<close>

definition export_doc :: "string \<Rightarrow> world \<Rightarrow> jsval" where
  "export_doc exportedAt w =
     JObj [(''nodes'', JArr (map JObj (nodes w))),
           (''edges'', JArr (map JObj (edges w))),
           (''version'', JStr ''1.0''),
           (''exportedAt'', JStr exportedAt)]"


text \<open>The catch block of \<^verbatim>\<open>importFromJSON\<close>: \<^verbatim>\<open>console.error\<close>, then \<^verbatim>\<open>alert\<close>.\<close>

definition import_failed :: "world \<Rightarrow> world" where
  "import_failed w = w\<lparr>
     console_errors := console_errors w @ [''Failed to import JSON:''],
     alerts := alerts w @ [''Failed to import workflow. Please check the JSON format.'']\<rparr>"

definition importFromJSON :: "platform \<Rightarrow> string \<Rightarrow> world \<Rightarrow> js_error + after_set" where
  "importFromJSON P json w =
     try_catch
       (case JSON_parse P json of
          None \<Rightarrow> Inl SyntaxError
        | Some data \<Rightarrow>
            (case get_prop data ''nodes'' of
               Inl error \<Rightarrow> Inl error
             | Inr nodes' \<Rightarrow>
                 if truthy nodes' then
                   (case get_prop data ''edges'' of
                      Inl error \<Rightarrow> Inl error
                    | Inr edges' \<Rightarrow>
                        if truthy edges'
                        then Inr (map_typed schedule_save (set_collections nodes' edges' w))
                        else Inl (Error ''Invalid JSON format''))
                 else Inl (Error ''Invalid JSON format'')))
       (\<lambda>error. Inr (Typed (import_failed w)))"

subsection \<open>The initial state\<close>

definition initialNodes :: "jsobj list" where
  "initialNodes =
     [[(''id'', JStr ''1''),
       (''position'', JObj [(''x'', JNum 250), (''y'', JNum 100)]),
       (''data'', JObj [(''label'', JStr ''Start Node''),
                        (''description'', JStr ''This is the starting point'')]),
       (''type'', JStr ''default'')],
      [(''id'', JStr ''2''),
       (''position'', JObj [(''x'', JNum 250), (''y'', JNum 250)]),
       (''data'', JObj [(''label'', JStr ''Process Node''),
                        (''description'', JStr ''Processing happens here'')]),
       (''type'', JStr ''default'')]]"

definition initialEdges :: "jsobj list" where
  "initialEdges =
     [[(''id'', JStr ''e1-2''), (''source'', JStr ''1''), (''target'', JStr ''2''),
       (''animated'', JBool True)]]"

text \<open>The store as \<^verbatim>\<open>create\<close> builds it, in a browser whose local storage is \<open>st\<close>.\<close>

definition initial_world :: "(string \<Rightarrow> string option) \<Rightarrow> world" where
  "initial_world st =
     \<lparr>nodes = initialNodes, edges = initialEdges, selectedNode = None,
      localStorage = st, timers = [], console_errors = [], alerts = []\<rparr>"

subsection \<open>Reading a node\<close>

text \<open>\<^verbatim>\<open>node.data.label\<close>\<close>

definition node_label :: "jsobj \<Rightarrow> js_error + jsval" where
  "node_label node = get_prop (obj_get node ''data'') ''label''"

subsection \<open>Example states\<close>

text \<open>The state that the test of \<^verbatim>\<open>deleteNode\<close> sets up, with its first node selected.\<close>

definition test_node_1 :: jsobj where
  "test_node_1 = [(''id'', JStr ''test-1''),
                  (''position'', JObj [(''x'', JNum 0), (''y'', JNum 0)]),
                  (''data'', JObj [(''label'', JStr ''Node 1'')]),
                  (''type'', JStr ''default'')]"

definition test_node_2 :: jsobj where
  "test_node_2 = [(''id'', JStr ''test-2''),
                  (''position'', JObj [(''x'', JNum 100), (''y'', JNum 100)]),
                  (''data'', JObj [(''label'', JStr ''Node 2'')]),
                  (''type'', JStr ''default'')]"

definition test_edge :: jsobj where
  "test_edge = [(''id'', JStr ''e1''), (''source'', JStr ''test-1''), (''target'', JStr ''test-2'')]"

definition empty_world :: world where
  "empty_world = \<lparr>nodes = [], edges = [], selectedNode = None, localStorage = Map.empty,
                   timers = [], console_errors = [], alerts = []\<rparr>"

definition test_world :: world where
  "test_world = empty_world\<lparr>nodes := [test_node_1, test_node_2], edges := [test_edge],
                            selectedNode := Some test_node_1\<rparr>"

text \<open>
  \<^verbatim>\<open>setSelectedNode\<close> stores any snapshot: here one that carries the id of a node of the
  collection with another label, and one whose id no node carries.
\<close>

definition stale_world :: world where
  "stale_world =
     setSelectedNode (Some [(''id'', JStr ''test-1''), (''data'', JObj [(''label'', JStr ''Snapshot'')])])
       test_world"

definition ghost_world :: world where
  "ghost_world =
     setSelectedNode (Some [(''id'', JStr ''ghost''), (''data'', JObj [(''label'', JStr ''Old'')])])
       empty_world"

text \<open>
  A store with one node, and the two texts a browser prints for it: the saved one and the
  exported one (at \<open>example_time\<close>). \<open>table_platform\<close> is the platform restricted to these
  texts: it prints the two documents, reads them back, reads \<^verbatim>\<open>{}\<close> and \<^verbatim>\<open>null\<close>, and
  rejects every other text.
\<close>

definition single_world :: world where
  "single_world = empty_world\<lparr>nodes :=
     [[(''id'', JStr ''n1''),
       (''position'', JObj [(''x'', JNum 10), (''y'', JNum 20)]),
       (''data'', JObj [(''label'', JStr ''Node 1'')]),
       (''type'', JStr ''default'')]]\<rparr>"

definition example_time :: string where
  "example_time = ''2024-01-01T00:00:00.000Z''"

definition single_save_text :: string where
  "single_save_text =
     ''{\"nodes\":[{\"id\":\"n1\",\"position\":{\"x\":10,\"y\":20},\"data\":{\"label\":\"Node 1\"},\"type\":\"default\"}],\"edges\":[]}''"

definition single_export_text :: string where
  "single_export_text = concat (map (\<lambda>line. line @ [CHR 0x0A])
     [''{'',
      ''  \"nodes\": ['',
      ''    {'',
      ''      \"id\": \"n1\",'',
      ''      \"position\": {'',
      ''        \"x\": 10,'',
      ''        \"y\": 20'',
      ''      },'',
      ''      \"data\": {'',
      ''        \"label\": \"Node 1\"'',
      ''      },'',
      ''      \"type\": \"default\"'',
      ''    }'',
      ''  ],'',
      ''  \"edges\": [],'',
      ''  \"version\": \"1.0\",'',
      ''  \"exportedAt\": \"2024-01-01T00:00:00.000Z\"'']) @ ''}''"

definition table_platform :: platform where
  "table_platform =
     \<lparr>JSON_stringify = (\<lambda>space v.
          if space = 0 \<and> v = state_doc single_world then single_save_text
          else if space = 2 \<and> v = export_doc example_time single_world then single_export_text
          else ''null''),
      JSON_parse = (\<lambda>text.
          if text = single_save_text then Some (state_doc single_world)
          else if text = single_export_text then Some (export_doc example_time single_world)
          else if text = ''{}'' then Some (JObj [])
          else if text = ''null'' then Some JNull
          else None),
      storage_accepts = (\<lambda>key text. length key + length text \<le> 5242880)\<rparr>"



section \<open>Properties\<close>

subsection \<open>Auxiliary facts\<close>

text \<open>
  The equations of the two recursive functions are unfolded by hand: as rewrite rules they
  would unfold for ever.
\<close>

declare show_nat.simps [simp del]
declare bulk_loop.simps [simp del]

lemma map_of_spread: "map_of (spread a b) = map_of a ++ map_of (rev b)"
proof (induction b arbitrary: a)
  case Nil
  show ?case by (simp add: spread_def)
next
  case (Cons p b)
  obtain k v where p: "p = (k, v)" by (cases p)
  have "spread a (p # b) = spread (AList.update k v a) b"
    by (simp add: spread_def p)
  then show ?case
    using Cons.IH [of "AList.update k v a"]
    by (auto simp: p AList.update_conv' fun_eq_iff map_add_def split: option.splits)
qed

lemma map_of_rev_distinct: "distinct (map fst b) \<Longrightarrow> map_of (rev b) = map_of b"
proof (induction b)
  case Nil
  show ?case by simp
next
  case (Cons p b)
  obtain k v where p: "p = (k, v)" by (cases p)
  from Cons.prems have k: "map_of b k = None" and d: "distinct (map fst b)"
    by (auto simp: p map_of_eq_None_iff)
  show ?case
    using Cons.IH [OF d] k
    by (auto simp: p fun_eq_iff map_add_def split: option.splits)
qed

lemma obj_get_spread:
  "distinct (map fst b) \<Longrightarrow>
   obj_get (spread a b) k = (case map_of b k of None \<Rightarrow> obj_get a k | Some v \<Rightarrow> v)"
  by (simp add: obj_get_def map_of_spread map_add_def map_of_rev_distinct split: option.splits)









lemma bulk_loop_eq:
  "bulk_loop now rand g count i acc = acc @ map (bulk_node now rand g) [i..<count]"
proof (induction now rand g count i acc rule: bulk_loop.induct)
  case (1 now rand g count i acc)
  show ?case
  proof (cases "i < count")
    case True
    then have "[i..<count] = i # [i + 1..<count]" by (simp add: upt_conv_Cons)
    with True "1.IH" show ?thesis by (subst bulk_loop.simps) simp
  next
    case False
    then show ?thesis by (subst bulk_loop.simps) simp
  qed
qed





lemma nodes_schedule_save [simp]: "nodes (schedule_save w) = nodes w"
  and edges_schedule_save [simp]: "edges (schedule_save w) = edges w"
  and selectedNode_schedule_save [simp]: "selectedNode (schedule_save w) = selectedNode w"
  by (simp_all add: schedule_save_def)

lemma obj_get_assign:
  "obj_get (spread n [(k, v)]) k' = (if k' = k then v else obj_get n k')"
  by (simp add: obj_get_spread)

lemma keys_assign:
  "map fst (spread n [(k, v)]) = (if k \<in> set (map fst n) then map fst n else map fst n @ [k])"
  by (simp add: spread_def AList.update_keys)

subsection \<open>Rounding to a double\<close>

lemma bitlen_powi_bounds:
  assumes "0 < p"
  shows "(2::rat) powi (bitlen p - 1) \<le> of_int p" and "of_int p < (2::rat) powi bitlen p"
proof -
  from assms have b: "1 \<le> bitlen p" by (auto simp: bitlen_alt_def)
  from bitlen_bounds [OF assms]
  have l: "2 ^ nat (bitlen p - 1) \<le> p" and u: "p < 2 ^ nat (bitlen p)" by simp_all
  have "(2::rat) powi (bitlen p - 1) = of_int (2 ^ nat (bitlen p - 1))"
    using b by (simp add: power_int_nonneg_exp)
  also have "\<dots> \<le> of_int p" using l by (simp only: of_int_le_iff)
  finally show "(2::rat) powi (bitlen p - 1) \<le> of_int p" .
  have "of_int p < (of_int (2 ^ nat (bitlen p)) :: rat)" using u by (simp only: of_int_less_iff)
  also have "\<dots> = 2 powi bitlen p" using b by (simp add: power_int_nonneg_exp)
  finally show "of_int p < (2::rat) powi bitlen p" .
qed

lemma binade_bounds:
  assumes "x \<noteq> 0"
  shows "2 powi binade x \<le> \<bar>x\<bar>" and "\<bar>x\<bar> < 2 powi (binade x + 1)"
proof -
  obtain p q where pq: "quotient_of \<bar>x\<bar> = (p, q)" by (cases "quotient_of \<bar>x\<bar>")
  then have q: "0 < q" by (rule quotient_of_denom_pos)
  from pq have a: "\<bar>x\<bar> = of_int p / of_int q" by (rule quotient_of_div)
  from assms have "0 < \<bar>x\<bar>" by simp
  with a q have p: "0 < p" by (simp add: zero_less_divide_iff)
  let ?d = "bitlen p - bitlen q"
  have lo: "2 powi (?d - 1) \<le> \<bar>x\<bar>"
  proof -
    have "?d - 1 = bitlen p - 1 - bitlen q" by simp
    then have "(2::rat) powi (?d - 1) = 2 powi (bitlen p - 1 - bitlen q)" by (simp only:)
    also have "\<dots> = 2 powi (bitlen p - 1) / 2 powi bitlen q"
      by (rule power_int_diff) simp
    also have "\<dots> \<le> of_int p / 2 powi bitlen q"
      using bitlen_powi_bounds(1) [OF p] by (simp add: divide_right_mono)
    also have "\<dots> \<le> of_int p / of_int q"
      using bitlen_powi_bounds(2) [OF q] p q by (simp add: frac_le)
    finally show ?thesis by (simp add: a)
  qed
  have hi: "\<bar>x\<bar> < 2 powi (?d + 1)"
  proof -
    have "of_int p / of_int q < (2::rat) powi bitlen p / of_int q"
      using bitlen_powi_bounds(2) [OF p] q by (simp add: divide_strict_right_mono)
    also have "\<dots> \<le> 2 powi bitlen p / 2 powi (bitlen q - 1)"
      using bitlen_powi_bounds(1) [OF q] by (simp add: frac_le)
    also have "\<dots> = 2 powi (bitlen p - (bitlen q - 1))"
      by (rule power_int_diff [symmetric]) simp
    also have "bitlen p - (bitlen q - 1) = ?d + 1" by simp
    finally show ?thesis by (simp add: a)
  qed
  have b: "binade x = (if 2 powi ?d \<le> \<bar>x\<bar> then ?d else ?d - 1)"
    by (simp add: binade_def pq)
  show "2 powi binade x \<le> \<bar>x\<bar>" using lo by (simp add: b)
  show "\<bar>x\<bar> < 2 powi (binade x + 1)" using hi by (auto simp: b)
qed


lemma round_half_even_nearest:
  "\<bar>of_int (round_half_even q) - q\<bar> \<le> \<bar>of_int n - q\<bar>"
proof -
  define k where "k = \<lfloor>q\<rfloor>"
  define r where "r = q - of_int k"
  have r: "0 \<le> r" "r < 1" unfolding r_def k_def by linarith+
  have q: "q = of_int k + r" by (simp add: r_def)
  have cases: "round_half_even q = k \<and> r \<le> 1 / 2 \<or> round_half_even q = k + 1 \<and> 1 / 2 \<le> r"
    unfolding round_half_even_def Let_def k_def [symmetric] r_def [symmetric] by auto
  consider "n \<le> k" | "k + 1 \<le> n" by linarith
  then show ?thesis
  proof cases
    case 1
    then have "(of_int n :: rat) \<le> of_int k" by simp
    with cases r show ?thesis unfolding q by auto
  next
    case 2
    then have "(of_int k :: rat) + 1 \<le> of_int n" by (metis of_int_1 of_int_add of_int_le_iff)
    with cases r show ?thesis unfolding q by auto
  qed
qed

lemma double_multiple:
  assumes "d \<in> doubles" and "2 powi e \<le> d"
  shows "\<exists>n::int. d = of_int n * 2 powi (e - 52)"
proof -
  from assms(1) obtain m p where d: "d = of_int m * 2 powi p" and m: "\<bar>m\<bar> < 2 ^ 53"
    by (auto simp: doubles_def)
  have "(0::rat) < 2 powi e" by simp
  with assms(2) have "0 < d" by linarith
  moreover have "(0::rat) < 2 powi p" by simp
  ultimately have mp: "0 < m" using d by (simp add: zero_less_mult_iff)
  from m have "m < 2 ^ 53" by simp
  then have "(of_int m :: rat) < of_int (2 ^ 53)" by (simp only: of_int_less_iff)
  then have "(of_int m :: rat) < 2 powi 53" by simp
  then have "d < 2 powi 53 * 2 powi p" unfolding d by (simp add: mult_strict_right_mono)
  also have "\<dots> = 2 powi (53 + p)" by (simp add: power_int_add)
  finally have "(2::rat) powi e < 2 powi (53 + p)" using assms(2) by simp
  have "e < 53 + p"
  proof (rule ccontr)
    assume "\<not> e < 53 + p"
    then have "(2::rat) powi (53 + p) \<le> 2 powi e" by (intro power_int_increasing) simp_all
    with \<open>(2::rat) powi e < 2 powi (53 + p)\<close> show False by simp
  qed
  then have j: "0 \<le> p - (e - 52)" by simp
  have "(2::rat) powi p = 2 powi (p - (e - 52)) * 2 powi (e - 52)"
    by (simp add: power_int_add [symmetric])
  also have "(2::rat) powi (p - (e - 52)) = of_int (2 ^ nat (p - (e - 52)))"
    using j by (simp add: power_int_nonneg_exp)
  finally have "d = of_int (m * 2 ^ nat (p - (e - 52))) * 2 powi (e - 52)"
    unfolding d by simp
  then show ?thesis by blast
qed

lemma fl_nearest:
  assumes "0 < x" and "d \<in> doubles"
  shows "\<bar>fl x - x\<bar> \<le> \<bar>d - x\<bar>"
proof -
  define e where "e = binade x"
  define u :: rat where "u = 2 powi (e - 52)"
  define q where "q = x / u"
  define R where "R = round_half_even q"
  have u: "0 < u" by (simp add: u_def)
  have x: "q * u = x" using u by (simp add: q_def)
  have f: "fl x = of_int R * u"
    unfolding fl_def Let_def R_def q_def u_def e_def using assms(1) by simp
  from binade_bounds(1) [of x] assms(1) have lo: "2 powi e \<le> x" by (simp add: e_def)
  have pe: "(2::rat) powi e = 2 ^ 52 * u"
  proof -
    have "(2::rat) powi e = 2 powi (52 + (e - 52))" by simp
    also have "\<dots> = 2 powi 52 * 2 powi (e - 52)" by (rule power_int_add) simp
    finally show ?thesis by (simp add: u_def)
  qed
  have err: "\<bar>fl x - x\<bar> = \<bar>of_int R - q\<bar> * u"
  proof -
    have "fl x - x = (of_int R - q) * u" by (simp add: f x left_diff_distrib)
    then show ?thesis using u by (simp add: abs_mult)
  qed
  show ?thesis
  proof (cases "2 powi e \<le> d")
    case True
    from double_multiple [OF assms(2) True] obtain n :: int where d: "d = of_int n * u"
      by (auto simp: u_def)
    have "d - x = (of_int n - q) * u" by (simp add: d x left_diff_distrib)
    then have "\<bar>d - x\<bar> = \<bar>of_int n - q\<bar> * u" using u by (simp add: abs_mult)
    moreover have "\<bar>of_int R - q\<bar> \<le> \<bar>of_int n - q\<bar>"
      unfolding R_def by (rule round_half_even_nearest)
    ultimately show ?thesis using u by (simp add: err mult_right_mono)
  next
    case False
    have "\<bar>of_int R - q\<bar> \<le> \<bar>of_int (2 ^ 52) - q\<bar>"
      unfolding R_def by (rule round_half_even_nearest)
    then have "\<bar>of_int R - q\<bar> * u \<le> \<bar>of_int (2 ^ 52) - q\<bar> * u"
      using u by (simp add: mult_right_mono)
    also have "\<bar>of_int (2 ^ 52) - q\<bar> * u = \<bar>(of_int (2 ^ 52) - q) * u\<bar>"
      using u by (simp add: abs_mult)
    also have "(of_int (2 ^ 52) - q) * u = 2 powi e - x"
      by (simp add: pe x left_diff_distrib)
    finally have "\<bar>fl x - x\<bar> \<le> \<bar>2 powi e - x\<bar>" by (simp add: err)
    with lo False show ?thesis by linarith
  qed
qed

lemma fl_between:
  assumes "0 \<le> x" and "a \<in> doubles" and "b \<in> doubles" and "a \<le> x" and "x \<le> b"
  shows "a \<le> fl x \<and> fl x \<le> b"
proof (cases "x = 0")
  case True
  with assms show ?thesis by (simp add: fl_def)
next
  case False
  with assms(1) have x: "0 < x" by simp
  from fl_nearest [OF x assms(2)] fl_nearest [OF x assms(3)] assms(4,5)
  show ?thesis by linarith
qed

lemma fl_double: "0 \<le> x \<Longrightarrow> x \<in> doubles \<Longrightarrow> fl x = x"
  using fl_between [of x x x] by simp

lemma nat_double:
  assumes "n < 2 ^ 53"
  shows "of_nat n \<in> doubles"
proof -
  from assms have "int n < 2 ^ 53" by (metis of_nat_less_iff of_nat_numeral of_nat_power)
  then have "\<bar>int n\<bar> < 2 ^ 53" by simp
  moreover have "(of_nat n :: rat) = of_int (int n) * 2 powi 0" by simp
  ultimately show ?thesis unfolding doubles_def by blast
qed



lemma fl_nat: "n < 2 ^ 53 \<Longrightarrow> fl (of_nat n) = of_nat n"
  by (rule fl_double) (simp_all add: nat_double)

lemma fl_numeral: "numeral k < (2::nat) ^ 53 \<Longrightarrow> fl (numeral k) = numeral k"
  using fl_nat [of "numeral k"] by simp




subsection \<open>deleteNode\<close>

text \<open>
  C1. \<^verbatim>\<open>deleteNode(id)\<close> keeps, in their order, exactly the nodes whose id is not \<open>id\<close> and
  exactly the edges whose source and target are not \<open>id\<close>; every node and edge it keeps
  is unchanged. The selection becomes \<^verbatim>\<open>null\<close> exactly when the selected node carries
  \<open>id\<close>, and is unchanged otherwise. When no node carries \<open>id\<close> the node collection is
  unchanged, while the edges are filtered and the selection is checked all the same.
\<close>

theorem deleteNode_removes_node_and_edges:
  "nodes (deleteNode i w) = filter (\<lambda>n. obj_get n ''id'' \<noteq> JStr i) (nodes w)
   \<and> (\<forall>n. n \<in> set (nodes (deleteNode i w)) \<longleftrightarrow> n \<in> set (nodes w) \<and> obj_get n ''id'' \<noteq> JStr i)
   \<and> edges (deleteNode i w) =
       filter (\<lambda>e. obj_get e ''source'' \<noteq> JStr i \<and> obj_get e ''target'' \<noteq> JStr i) (edges w)
   \<and> (\<forall>e. e \<in> set (edges (deleteNode i w)) \<longleftrightarrow>
           e \<in> set (edges w) \<and> obj_get e ''source'' \<noteq> JStr i \<and> obj_get e ''target'' \<noteq> JStr i)
   \<and> (\<forall>s. selectedNode w = Some s \<longrightarrow>
          (selectedNode (deleteNode i w) = None \<longleftrightarrow> obj_get s ''id'' = JStr i)
          \<and> (obj_get s ''id'' \<noteq> JStr i \<longrightarrow> selectedNode (deleteNode i w) = Some s))
   \<and> (selectedNode w = None \<longrightarrow> selectedNode (deleteNode i w) = None)
   \<and> ((\<forall>n \<in> set (nodes w). obj_get n ''id'' \<noteq> JStr i) \<longrightarrow> nodes (deleteNode i w) = nodes w)"
proof -
  have sel: "selectedNode (deleteNode i w) = (if selected_id w = JStr i then None else selectedNode w)"
    by (simp add: deleteNode_def)
  have keep: "filter (\<lambda>n. obj_get n ''id'' \<noteq> JStr i) (nodes w) = nodes w"
    if "\<forall>n \<in> set (nodes w). obj_get n ''id'' \<noteq> JStr i"
    using that by (simp add: filter_id_conv)
  show ?thesis
    using sel keep by (auto simp: deleteNode_def selected_id_def)
qed

theorem deleteNode_removes_node_and_edges_witness:
  "nodes (deleteNode ''test-1'' test_world) = [test_node_2]
   \<and> edges (deleteNode ''test-1'' test_world) = []
   \<and> selectedNode test_world = Some test_node_1
   \<and> selectedNode (deleteNode ''test-1'' test_world) = None
   \<and> nodes (deleteNode ''test-2'' test_world) = [test_node_1]
   \<and> selectedNode (deleteNode ''test-2'' test_world) = Some test_node_1
   \<and> nodes (deleteNode ''test-3'' test_world) = nodes test_world
   \<and> edges (deleteNode ''test-3'' test_world) = edges test_world"
  using deleteNode_removes_node_and_edges [of "''test-1''" test_world]
    deleteNode_removes_node_and_edges [of "''test-2''" test_world]
    deleteNode_removes_node_and_edges [of "''test-3''" test_world]
  by (simp add: test_world_def empty_world_def test_node_1_def test_node_2_def test_edge_def
      obj_get_def)

subsection \<open>addNode\<close>

lemma addNode_nodes:
  "\<exists>n. nodes (addNode now rnd position w) = nodes w @ [n]
       \<and> node_label n = Inr (JStr (''Node '' @ show_nat (length (nodes w) + 1)))"
  by (simp add: addNode_def Let_def node_label_def obj_get_def)

lemma addNode_calls_snoc:
  "addNode_calls (calls @ [(now, rnd, position)]) w = addNode now rnd position (addNode_calls calls w)"
  by (simp add: addNode_calls_def)

lemma addNode_calls_nodes:
  "\<exists>new. nodes (addNode_calls calls w) = nodes w @ new \<and> length new = length calls
     \<and> (\<forall>j < length calls.
           node_label (new ! j) = Inr (JStr (''Node '' @ show_nat (length (nodes w) + j + 1))))"
proof (induction calls rule: rev_induct)
  case Nil
  show ?case by (simp add: addNode_calls_def)
next
  case (snoc c calls)
  obtain now rnd position where c: "c = (now, rnd, position)" by (cases c)
  from snoc obtain new where new: "nodes (addNode_calls calls w) = nodes w @ new"
    and len: "length new = length calls"
    and lab: "\<forall>j < length calls.
           node_label (new ! j) = Inr (JStr (''Node '' @ show_nat (length (nodes w) + j + 1)))"
    by blast
  from addNode_nodes [of now rnd position "addNode_calls calls w"]
  obtain n where n: "nodes (addNode now rnd position (addNode_calls calls w))
                       = nodes (addNode_calls calls w) @ [n]"
    and nl: "node_label n
               = Inr (JStr (''Node '' @ show_nat (length (nodes (addNode_calls calls w)) + 1)))"
    by blast
  have "nodes (addNode_calls (calls @ [c]) w) = nodes w @ (new @ [n])"
    by (simp add: c addNode_calls_snoc n new)
  moreover have "length (new @ [n]) = length (calls @ [c])" by (simp add: len)
  moreover have "\<forall>j < length (calls @ [c]).
       node_label ((new @ [n]) ! j) = Inr (JStr (''Node '' @ show_nat (length (nodes w) + j + 1)))"
  proof (intro allI impI)
    fix j assume j: "j < length (calls @ [c])"
    show "node_label ((new @ [n]) ! j) = Inr (JStr (''Node '' @ show_nat (length (nodes w) + j + 1)))"
    proof (cases "j < length calls")
      case True
      with lab len show ?thesis by (simp add: nth_append)
    next
      case False
      with j have "j = length calls" by simp
      with nl new len show ?thesis by (simp add: nth_append)
    qed
  qed
  ultimately show ?case by blast
qed

text \<open>
  C8. One call of \<^verbatim>\<open>addNode\<close> appends one node at the end, labelled \<^verbatim>\<open>Node\<close> and the
  count before the call plus one, and leaves the nodes before it as they were: the length
  grows by exactly one. After any sequence of calls the collection is the old one followed
  by one node per call, the \<open>j\<close>-th of them labelled with the old count plus \<open>j + 1\<close>.
\<close>

theorem addNode_appends_one_labelled_node:
  "(\<exists>n. nodes (addNode now rnd position w) = nodes w @ [n]
        \<and> node_label n = Inr (JStr (''Node '' @ show_nat (length (nodes w) + 1))))
   \<and> length (nodes (addNode now rnd position w)) = length (nodes w) + 1
   \<and> (\<exists>new. nodes (addNode_calls calls w) = nodes w @ new
          \<and> length new = length calls
          \<and> (\<forall>j < length calls.
                node_label (new ! j) = Inr (JStr (''Node '' @ show_nat (length (nodes w) + j + 1)))))
   \<and> length (nodes (addNode_calls calls w)) = length (nodes w) + length calls"
proof -
  from addNode_nodes [of now rnd position w]
  have 1: "length (nodes (addNode now rnd position w)) = length (nodes w) + 1" by auto
  from addNode_calls_nodes [of calls w]
  have 2: "length (nodes (addNode_calls calls w)) = length (nodes w) + length calls" by auto
  show ?thesis using addNode_nodes addNode_calls_nodes 1 2 by blast
qed

theorem addNode_appends_one_labelled_node_witness:
  "nodes (addNode 1700000000000 (1 / 2, 1 / 4) None test_world) =
     [test_node_1, test_node_2,
      [(''id'', JStr ''node-1700000000000''),
       (''position'', JObj [(''x'', JNum 250), (''y'', JNum 125)]),
       (''data'', JObj [(''label'', JStr ''Node 3''), (''description'', JStr ''New node'')]),
       (''type'', JStr ''default'')]]
   \<and> length (nodes (addNode_calls
        [(1700000000000, (1 / 2, 1 / 4), None),
         (1700000000000, (0, 0), Some [(''x'', JNum 100), (''y'', JNum 100)])] test_world)) = 4
   \<and> node_label (nodes (addNode_calls
        [(1700000000000, (1 / 2, 1 / 4), None),
         (1700000000000, (0, 0), Some [(''x'', JNum 100), (''y'', JNum 100)])] test_world) ! 3)
       = Inr (JStr ''Node 4'')"
  using addNode_appends_one_labelled_node [of 1700000000000 "(1 / 2, 1 / 4)" None test_world
      "[(1700000000000, (1 / 2, 1 / 4), None),
        (1700000000000, (0, 0), Some [(''x'', JNum 100), (''y'', JNum 100)])]"]
  by (simp add: addNode_calls_def addNode_def Let_def test_world_def empty_world_def
      show_int_def show_nat.simps digit_char_def node_label_def obj_get_def schedule_save_def
      fl_numeral)

subsection \<open>toggleNodeVisibility\<close>

lemma toggle_nodes:
  "nodes (toggleNodeVisibility i w) =
     map (\<lambda>n. if obj_get n ''id'' = JStr i then toggle_hidden n else n) (nodes w)"
  by (simp add: toggleNodeVisibility_def)

lemma toggle_hidden_flag:
  "obj_get (toggle_hidden n) ''hidden'' = JBool (\<not> truthy (obj_get n ''hidden''))"
  by (simp add: toggle_hidden_def obj_get_assign)

lemma toggle_hidden_other: "k \<noteq> ''hidden'' \<Longrightarrow> obj_get (toggle_hidden n) k = obj_get n k"
  by (simp add: toggle_hidden_def obj_get_assign)

text \<open>
  C9. \<^verbatim>\<open>toggleNodeVisibility(id)\<close> keeps the length and the order of the node collection.
  A node that carries \<open>id\<close> gets the negation of its \<^verbatim>\<open>hidden\<close> flag (\<^verbatim>\<open>true\<close> when it had
  none) and keeps every other property, its id, position, type and data among them; every
  other node is unchanged, and so are the edges and the selection, also when the selected
  node is the toggled one. When no node carries \<open>id\<close> the nodes are unchanged.
\<close>

theorem toggleNodeVisibility_flips_hidden_only:
  "length (nodes (toggleNodeVisibility i w)) = length (nodes w)
   \<and> (\<forall>j < length (nodes w).
        (obj_get (nodes w ! j) ''id'' = JStr i \<longrightarrow>
           obj_get (nodes (toggleNodeVisibility i w) ! j) ''hidden''
             = JBool (\<not> truthy (obj_get (nodes w ! j) ''hidden''))
           \<and> (\<forall>b. obj_get (nodes w ! j) ''hidden'' = JBool b \<longrightarrow>
                  obj_get (nodes (toggleNodeVisibility i w) ! j) ''hidden'' = JBool (\<not> b))
           \<and> (obj_get (nodes w ! j) ''hidden'' = JUndefined \<longrightarrow>
                  obj_get (nodes (toggleNodeVisibility i w) ! j) ''hidden'' = JBool True)
           \<and> (\<forall>k. k \<noteq> ''hidden'' \<longrightarrow>
                  obj_get (nodes (toggleNodeVisibility i w) ! j) k = obj_get (nodes w ! j) k))
        \<and> (obj_get (nodes w ! j) ''id'' \<noteq> JStr i \<longrightarrow>
             nodes (toggleNodeVisibility i w) ! j = nodes w ! j))
   \<and> edges (toggleNodeVisibility i w) = edges w
   \<and> selectedNode (toggleNodeVisibility i w) = selectedNode w
   \<and> ((\<forall>n \<in> set (nodes w). obj_get n ''id'' \<noteq> JStr i) \<longrightarrow>
         nodes (toggleNodeVisibility i w) = nodes w)"
proof -
  have len: "length (nodes (toggleNodeVisibility i w)) = length (nodes w)"
    by (simp add: toggle_nodes)
  have at: "nodes (toggleNodeVisibility i w) ! j =
              (if obj_get (nodes w ! j) ''id'' = JStr i then toggle_hidden (nodes w ! j) else nodes w ! j)"
    if "j < length (nodes w)" for j
    using that by (simp add: toggle_nodes)
  have frame: "edges (toggleNodeVisibility i w) = edges w"
    "selectedNode (toggleNodeVisibility i w) = selectedNode w"
    by (simp_all add: toggleNodeVisibility_def)
  have noop: "nodes (toggleNodeVisibility i w) = nodes w"
    if "\<forall>n \<in> set (nodes w). obj_get n ''id'' \<noteq> JStr i"
    using that by (simp add: toggle_nodes map_idI)
  show ?thesis
    using len at frame noop by (simp add: toggle_hidden_flag toggle_hidden_other)
qed

theorem toggleNodeVisibility_flips_hidden_only_witness:
  "nodes (toggleNodeVisibility ''test-1'' test_world) =
     [test_node_1 @ [(''hidden'', JBool True)], test_node_2]
   \<and> nodes (toggleNodeVisibility ''test-1'' (toggleNodeVisibility ''test-1'' test_world)) =
     [test_node_1 @ [(''hidden'', JBool False)], test_node_2]
   \<and> selectedNode (toggleNodeVisibility ''test-1'' test_world) = Some test_node_1
   \<and> edges (toggleNodeVisibility ''test-1'' test_world) = [test_edge]
   \<and> nodes (toggleNodeVisibility ''test-3'' test_world) = nodes test_world"
  using toggleNodeVisibility_flips_hidden_only [of "''test-1''" test_world]
    toggleNodeVisibility_flips_hidden_only [of "''test-3''" test_world]
  by (simp add: toggleNodeVisibility_def toggle_hidden_def test_world_def empty_world_def
      test_node_1_def test_node_2_def test_edge_def obj_get_def spread_def schedule_save_def)

subsection \<open>The initial state\<close>

text \<open>
  C10. The store starts with two nodes, with ids \<^verbatim>\<open>1\<close> and \<^verbatim>\<open>2\<close> and labels
  \<^verbatim>\<open>Start Node\<close> and \<^verbatim>\<open>Process Node\<close>, one animated edge \<^verbatim>\<open>e1-2\<close> from \<^verbatim>\<open>1\<close> to \<^verbatim>\<open>2\<close>, and
  no selection. Sizes after an action count from this state: bulk generation of \<open>count\<close>
  nodes gives \<open>2 + count\<close> nodes, \<open>count\<close> nodes only after \<^verbatim>\<open>clearFlow\<close>, and one
  \<^verbatim>\<open>addNode\<close> gives three.
\<close>

theorem initial_state_two_nodes_one_edge:
  "length (nodes (initial_world st)) = 2
   \<and> map (\<lambda>n. obj_get n ''id'') (nodes (initial_world st)) = [JStr ''1'', JStr ''2'']
   \<and> map node_label (nodes (initial_world st)) = [Inr (JStr ''Start Node''), Inr (JStr ''Process Node'')]
   \<and> edges (initial_world st) =
        [[(''id'', JStr ''e1-2''), (''source'', JStr ''1''), (''target'', JStr ''2''),
          (''animated'', JBool True)]]
   \<and> selectedNode (initial_world st) = None
   \<and> length (nodes (generateBulkNodes now rand count (initial_world st))) = 2 + count
   \<and> length (nodes (generateBulkNodes now rand count (clearFlow (initial_world st)))) = count
   \<and> length (nodes (addNode t rnd position (initial_world st))) = 3"
  by (simp add: initial_world_def initialNodes_def initialEdges_def node_label_def obj_get_def
      generateBulkNodes_def bulk_loop_eq clearFlow_def addNode_def Let_def)

subsection \<open>updateNode\<close>

lemma payload_merge_data: "payload (merge_data n p) = spread (payload n) p"
  by (simp add: payload_def merge_data_def obj_get_assign)

lemma merge_data_payload_key:
  "distinct (map fst p) \<Longrightarrow>
   obj_get (payload (merge_data n p)) k =
     (case map_of p k of None \<Rightarrow> obj_get (payload n) k | Some v \<Rightarrow> v)"
  by (simp add: payload_merge_data obj_get_spread)

lemma merge_data_other: "k \<noteq> ''data'' \<Longrightarrow> obj_get (merge_data n p) k = obj_get n k"
  by (simp add: merge_data_def obj_get_assign)

lemma merge_data_same_payload:
  "obj_get n ''data'' = obj_get s ''data'' \<Longrightarrow>
   obj_get (merge_data n p) ''data'' = obj_get (merge_data s p) ''data''"
  by (simp add: merge_data_def obj_get_assign payload_def)

lemma updateNode_nodes:
  "nodes (updateNode i p w) =
     map (\<lambda>n. if obj_get n ''id'' = JStr i then merge_data n p else n) (nodes w)"
  by (simp add: updateNode_def Let_def split: option.splits)

lemma updateNode_edges: "edges (updateNode i p w) = edges w"
  by (simp add: updateNode_def Let_def split: option.splits)

lemma updateNode_selectedNode:
  "selectedNode (updateNode i p w) =
     (case selectedNode w of
        None \<Rightarrow> None
      | Some s \<Rightarrow> if obj_get s ''id'' = JStr i then Some (merge_data s p) else Some s)"
  by (simp add: updateNode_def Let_def split: option.splits)

lemma updateNode_merges_at:
  assumes "distinct (map fst p)" and j: "j < length (nodes w)"
  shows "(obj_get (nodes w ! j) ''id'' = JStr i \<longrightarrow>
           (\<forall>k. obj_get (payload (nodes (updateNode i p w) ! j)) k =
                  (case map_of p k of None \<Rightarrow> obj_get (payload (nodes w ! j)) k | Some v \<Rightarrow> v))
           \<and> (\<forall>k. k \<noteq> ''data'' \<longrightarrow> obj_get (nodes (updateNode i p w) ! j) k = obj_get (nodes w ! j) k))
        \<and> (obj_get (nodes w ! j) ''id'' \<noteq> JStr i \<longrightarrow> nodes (updateNode i p w) ! j = nodes w ! j)"
proof (cases "obj_get (nodes w ! j) ''id'' = JStr i")
  case True
  then have n': "nodes (updateNode i p w) ! j = merge_data (nodes w ! j) p"
    using j by (simp add: updateNode_nodes)
  show ?thesis
    unfolding n' using True assms(1) by (simp add: merge_data_payload_key merge_data_other)
next
  case False
  then have n': "nodes (updateNode i p w) ! j = nodes w ! j"
    using j by (simp add: updateNode_nodes)
  show ?thesis
    unfolding n' using False by simp
qed

lemma updateNode_agrees_at:
  assumes "distinct (map fst p)" and j: "j < length (nodes w)"
    and n: "obj_get (nodes w ! j) ''id'' = JStr i"
  shows "(\<forall>k v. map_of p k = Some v \<longrightarrow>
            obj_get (payload (nodes (updateNode i p w) ! j)) k = v
            \<and> obj_get (payload (merge_data s p)) k = v)
         \<and> (obj_get (nodes w ! j) ''data'' = obj_get s ''data'' \<longrightarrow>
              obj_get (nodes (updateNode i p w) ! j) ''data'' = obj_get (merge_data s p) ''data'')"
proof -
  have n': "nodes (updateNode i p w) ! j = merge_data (nodes w ! j) p"
    using j n by (simp add: updateNode_nodes)
  show ?thesis
    unfolding n' using assms(1) merge_data_same_payload [of "nodes w ! j" s p]
    by (simp add: merge_data_payload_key)
qed

lemma updateNode_merges_all:
  assumes "distinct (map fst p)"
  shows "\<forall>j < length (nodes w).
        (obj_get (nodes w ! j) ''id'' = JStr i \<longrightarrow>
           (\<forall>k. obj_get (payload (nodes (updateNode i p w) ! j)) k =
                  (case map_of p k of None \<Rightarrow> obj_get (payload (nodes w ! j)) k | Some v \<Rightarrow> v))
           \<and> (\<forall>k. k \<noteq> ''data'' \<longrightarrow>
                  obj_get (nodes (updateNode i p w) ! j) k = obj_get (nodes w ! j) k))
        \<and> (obj_get (nodes w ! j) ''id'' \<noteq> JStr i \<longrightarrow>
             nodes (updateNode i p w) ! j = nodes w ! j)"
  using updateNode_merges_at [OF assms] by blast

lemma updateNode_selection_merged:
  assumes "distinct (map fst p)"
  shows "\<forall>s. selectedNode w = Some s \<and> obj_get s ''id'' = JStr i \<longrightarrow>
        (\<exists>s'. selectedNode (updateNode i p w) = Some s'
           \<and> (\<forall>k. obj_get (payload s') k =
                  (case map_of p k of None \<Rightarrow> obj_get (payload s) k | Some v \<Rightarrow> v))
           \<and> (\<forall>k. k \<noteq> ''data'' \<longrightarrow> obj_get s' k = obj_get s k)
           \<and> (\<forall>j < length (nodes w). obj_get (nodes w ! j) ''id'' = JStr i \<longrightarrow>
                  (\<forall>k v. map_of p k = Some v \<longrightarrow>
                      obj_get (payload (nodes (updateNode i p w) ! j)) k = v
                      \<and> obj_get (payload s') k = v)
                  \<and> (obj_get (nodes w ! j) ''data'' = obj_get s ''data'' \<longrightarrow>
                       obj_get (nodes (updateNode i p w) ! j) ''data'' = obj_get s' ''data'')))"
proof (intro allI impI)
  fix s assume s: "selectedNode w = Some s \<and> obj_get s ''id'' = JStr i"
  have 1: "selectedNode (updateNode i p w) = Some (merge_data s p)"
    using s by (simp add: updateNode_selectedNode)
  have 2: "\<forall>k. obj_get (payload (merge_data s p)) k =
            (case map_of p k of None \<Rightarrow> obj_get (payload s) k | Some v \<Rightarrow> v)"
    using assms by (simp add: merge_data_payload_key)
  have 3: "\<forall>k. k \<noteq> ''data'' \<longrightarrow> obj_get (merge_data s p) k = obj_get s k"
    by (simp add: merge_data_other)
  have 4: "\<forall>j < length (nodes w). obj_get (nodes w ! j) ''id'' = JStr i \<longrightarrow>
             (\<forall>k v. map_of p k = Some v \<longrightarrow>
                 obj_get (payload (nodes (updateNode i p w) ! j)) k = v
                 \<and> obj_get (payload (merge_data s p)) k = v)
             \<and> (obj_get (nodes w ! j) ''data'' = obj_get s ''data'' \<longrightarrow>
                  obj_get (nodes (updateNode i p w) ! j) ''data'' = obj_get (merge_data s p) ''data'')"
    using updateNode_agrees_at [OF assms, of _ w i s] by blast
  show "\<exists>s'. selectedNode (updateNode i p w) = Some s'
           \<and> (\<forall>k. obj_get (payload s') k =
                  (case map_of p k of None \<Rightarrow> obj_get (payload s) k | Some v \<Rightarrow> v))
           \<and> (\<forall>k. k \<noteq> ''data'' \<longrightarrow> obj_get s' k = obj_get s k)
           \<and> (\<forall>j < length (nodes w). obj_get (nodes w ! j) ''id'' = JStr i \<longrightarrow>
                  (\<forall>k v. map_of p k = Some v \<longrightarrow>
                      obj_get (payload (nodes (updateNode i p w) ! j)) k = v
                      \<and> obj_get (payload s') k = v)
                  \<and> (obj_get (nodes w ! j) ''data'' = obj_get s ''data'' \<longrightarrow>
                       obj_get (nodes (updateNode i p w) ! j) ''data'' = obj_get s' ''data''))"
    by (rule exI [of _ "merge_data s p"]) (intro conjI 1 2 3 4)
qed

lemma updateNode_selection_kept:
  "\<forall>s. selectedNode w = Some s \<and> obj_get s ''id'' \<noteq> JStr i \<longrightarrow>
        selectedNode (updateNode i p w) = Some s"
  by (simp add: updateNode_selectedNode)

lemma updateNode_selection_none:
  "selectedNode w = None \<longrightarrow> selectedNode (updateNode i p w) = None"
  by (simp add: updateNode_selectedNode)

lemma updateNode_length: "length (nodes (updateNode i p w)) = length (nodes w)"
  by (simp add: updateNode_nodes)

text \<open>
  C4, as amended. For a \<^verbatim>\<open>partialData\<close> object, \<^verbatim>\<open>updateNode(id, partialData)\<close> merges it
  into the data of every node that carries \<open>id\<close>: a key of \<^verbatim>\<open>partialData\<close> takes its
  value, any other key keeps the value it had, and the node's other properties and all
  other nodes and the edges are unchanged. A selection that carries \<open>id\<close> gets the same
  merge; a selection with another id, or none, is untouched. After the call the entry and
  the snapshot agree on every key of \<^verbatim>\<open>partialData\<close>, and on the whole payload when they
  agreed on it before the call.
\<close>

theorem updateNode_merges_into_node_and_selection:
  assumes "distinct (map fst p)"
  shows
  "length (nodes (updateNode i p w)) = length (nodes w)
   \<and> (\<forall>j < length (nodes w).
        (obj_get (nodes w ! j) ''id'' = JStr i \<longrightarrow>
           (\<forall>k. obj_get (payload (nodes (updateNode i p w) ! j)) k =
                  (case map_of p k of None \<Rightarrow> obj_get (payload (nodes w ! j)) k | Some v \<Rightarrow> v))
           \<and> (\<forall>k. k \<noteq> ''data'' \<longrightarrow>
                  obj_get (nodes (updateNode i p w) ! j) k = obj_get (nodes w ! j) k))
        \<and> (obj_get (nodes w ! j) ''id'' \<noteq> JStr i \<longrightarrow>
             nodes (updateNode i p w) ! j = nodes w ! j))
   \<and> edges (updateNode i p w) = edges w
   \<and> (\<forall>s. selectedNode w = Some s \<and> obj_get s ''id'' = JStr i \<longrightarrow>
        (\<exists>s'. selectedNode (updateNode i p w) = Some s'
           \<and> (\<forall>k. obj_get (payload s') k =
                  (case map_of p k of None \<Rightarrow> obj_get (payload s) k | Some v \<Rightarrow> v))
           \<and> (\<forall>k. k \<noteq> ''data'' \<longrightarrow> obj_get s' k = obj_get s k)
           \<and> (\<forall>j < length (nodes w). obj_get (nodes w ! j) ''id'' = JStr i \<longrightarrow>
                  (\<forall>k v. map_of p k = Some v \<longrightarrow>
                      obj_get (payload (nodes (updateNode i p w) ! j)) k = v
                      \<and> obj_get (payload s') k = v)
                  \<and> (obj_get (nodes w ! j) ''data'' = obj_get s ''data'' \<longrightarrow>
                       obj_get (nodes (updateNode i p w) ! j) ''data'' = obj_get s' ''data''))))
   \<and> (\<forall>s. selectedNode w = Some s \<and> obj_get s ''id'' \<noteq> JStr i \<longrightarrow>
        selectedNode (updateNode i p w) = Some s)
   \<and> (selectedNode w = None \<longrightarrow> selectedNode (updateNode i p w) = None)"
  by (intro conjI updateNode_length updateNode_merges_all [OF assms] updateNode_edges
      updateNode_selection_merged [OF assms] updateNode_selection_kept updateNode_selection_none)

theorem updateNode_merges_into_node_and_selection_witness:
  "distinct (map fst [(''label'', JStr ''Updated Label''), (''color'', JStr ''red'')])
   \<and> nodes (updateNode ''test-1'' [(''label'', JStr ''Updated Label''), (''color'', JStr ''red'')] test_world) =
       [[(''id'', JStr ''test-1''),
         (''position'', JObj [(''x'', JNum 0), (''y'', JNum 0)]),
         (''data'', JObj [(''label'', JStr ''Updated Label''), (''color'', JStr ''red'')]),
         (''type'', JStr ''default'')],
        test_node_2]
   \<and> selectedNode (updateNode ''test-1'' [(''label'', JStr ''Updated Label''), (''color'', JStr ''red'')] test_world) =
       Some [(''id'', JStr ''test-1''),
             (''position'', JObj [(''x'', JNum 0), (''y'', JNum 0)]),
             (''data'', JObj [(''label'', JStr ''Updated Label''), (''color'', JStr ''red'')]),
             (''type'', JStr ''default'')]
   \<and> selectedNode (updateNode ''test-2'' [(''color'', JStr ''red'')] test_world) = Some test_node_1"
  using updateNode_merges_into_node_and_selection
      [of "[(''label'', JStr ''Updated Label''), (''color'', JStr ''red'')]" "''test-1''" test_world]
    updateNode_merges_into_node_and_selection [of "[(''color'', JStr ''red'')]" "''test-2''" test_world]
  by (simp add: updateNode_def Let_def merge_data_def payload_def spread_def obj_get_def
      test_world_def empty_world_def test_node_1_def test_node_2_def schedule_save_def)

text \<open>
  The snapshot of \<open>stale_world\<close> carries the id of the first node and another label.
  After \<^verbatim>\<open>updateNode\<close> with a colour both have the colour, and the labels still differ:
  the entry and the snapshot do not agree.
\<close>

theorem updateNode_stale_selection_disagrees:
  "selectedNode stale_world =
     Some [(''id'', JStr ''test-1''), (''data'', JObj [(''label'', JStr ''Snapshot'')])]
   \<and> nodes stale_world = [test_node_1, test_node_2]
   \<and> obj_get test_node_1 ''id'' = JStr ''test-1''
   \<and> obj_get (nodes (updateNode ''test-1'' [(''color'', JStr ''red'')] stale_world) ! 0) ''data'' =
       JObj [(''label'', JStr ''Node 1''), (''color'', JStr ''red'')]
   \<and> selectedNode (updateNode ''test-1'' [(''color'', JStr ''red'')] stale_world) =
       Some [(''id'', JStr ''test-1''),
             (''data'', JObj [(''label'', JStr ''Snapshot''), (''color'', JStr ''red'')])]
   \<and> JObj [(''label'', JStr ''Node 1''), (''color'', JStr ''red'')]
       \<noteq> JObj [(''label'', JStr ''Snapshot''), (''color'', JStr ''red'')]"
  by (simp add: updateNode_def Let_def merge_data_def payload_def spread_def obj_get_def
      stale_world_def setSelectedNode_def test_world_def empty_world_def test_node_1_def
      test_node_2_def schedule_save_def)

text \<open>
  C5, as amended. When no node of the collection carries \<open>id\<close>,
  \<^verbatim>\<open>updateNode(id, partialData)\<close> leaves the nodes and the edges unchanged, and the
  selection too when it is \<^verbatim>\<open>null\<close> or carries another id; a selection that carries \<open>id\<close>
  takes the merge of \<^verbatim>\<open>partialData\<close> into its data.
\<close>

theorem updateNode_unknown_id_keeps_collections:
  assumes "\<forall>n \<in> set (nodes w). obj_get n ''id'' \<noteq> JStr i"
  shows "nodes (updateNode i p w) = nodes w
   \<and> edges (updateNode i p w) = edges w
   \<and> (selected_id w \<noteq> JStr i \<longrightarrow> selectedNode (updateNode i p w) = selectedNode w)
   \<and> (\<forall>s. selectedNode w = Some s \<and> obj_get s ''id'' = JStr i \<longrightarrow>
          selectedNode (updateNode i p w) = Some (merge_data s p))"
proof -
  have "map (\<lambda>n. if obj_get n ''id'' = JStr i then merge_data n p else n) (nodes w) = nodes w"
    using assms by (simp add: map_idI)
  then have "nodes (updateNode i p w) = nodes w" by (simp add: updateNode_nodes)
  moreover have "selectedNode (updateNode i p w) = selectedNode w" if "selected_id w \<noteq> JStr i"
    using that by (simp add: updateNode_selectedNode selected_id_def split: option.splits)
  ultimately show ?thesis
    by (simp add: updateNode_edges updateNode_selectedNode)
qed

theorem updateNode_unknown_id_keeps_collections_witness:
  "map (\<lambda>n. obj_get n ''id'') (nodes test_world) = [JStr ''test-1'', JStr ''test-2'']
   \<and> nodes (updateNode ''test-3'' [(''label'', JStr ''New'')] test_world) = [test_node_1, test_node_2]
   \<and> edges (updateNode ''test-3'' [(''label'', JStr ''New'')] test_world) = [test_edge]
   \<and> selectedNode (updateNode ''test-3'' [(''label'', JStr ''New'')] test_world) = Some test_node_1"
proof -
  have h: "\<forall>n \<in> set (nodes test_world). obj_get n ''id'' \<noteq> JStr ''test-3''"
    by (simp add: test_world_def empty_world_def test_node_1_def test_node_2_def obj_get_def)
  show ?thesis
    using h updateNode_unknown_id_keeps_collections [OF h, of "[(''label'', JStr ''New'')]"]
    by (simp add: test_world_def empty_world_def selected_id_def test_node_1_def
        test_node_2_def obj_get_def)
qed

text \<open>
  No node of \<open>ghost_world\<close> carries the id of its selection, and \<^verbatim>\<open>updateNode\<close> with that
  id rewrites the label of the snapshot.
\<close>

theorem updateNode_unknown_id_changes_selection:
  "nodes ghost_world = []
   \<and> selectedNode ghost_world =
       Some [(''id'', JStr ''ghost''), (''data'', JObj [(''label'', JStr ''Old'')])]
   \<and> selectedNode (updateNode ''ghost'' [(''label'', JStr ''New'')] ghost_world) =
       Some [(''id'', JStr ''ghost''), (''data'', JObj [(''label'', JStr ''New'')])]
   \<and> selectedNode (updateNode ''ghost'' [(''label'', JStr ''New'')] ghost_world)
       \<noteq> selectedNode ghost_world"
  by (simp add: updateNode_def Let_def merge_data_def payload_def spread_def obj_get_def
      ghost_world_def setSelectedNode_def empty_world_def schedule_save_def)

subsection \<open>generateBulkNodes\<close>












subsection \<open>JSON export and import, local storage\<close>






lemma importFromJSON_syntax_error:
  "JSON_parse P text = None \<Longrightarrow> importFromJSON P text w = Inr (Typed (import_failed w))"
  by (simp add: importFromJSON_def try_catch_def)

lemma importFromJSON_missing_field:
  assumes "JSON_parse P text = Some v" and "\<not> has_field v ''nodes'' \<or> \<not> has_field v ''edges''"
  shows "importFromJSON P text w = Inr (Typed (import_failed w))"
proof (cases v)
  case (JObj ob)
  with assms(2) have "map_of ob ''nodes'' = None \<or> map_of ob ''edges'' = None" by simp
  then show ?thesis
    using assms(1) JObj
    by (auto simp: importFromJSON_def try_catch_def obj_get_def)
qed (use assms(1) in \<open>simp_all add: importFromJSON_def try_catch_def\<close>)

lemma importFromJSON_returns: "\<exists>r. importFromJSON P text w = Inr r"
  by (simp add: importFromJSON_def try_catch_def split: sum.splits option.splits)

lemma loadFromLocalStorage_returns: "\<exists>r. loadFromLocalStorage P w = Inr r"
  by (simp add: loadFromLocalStorage_def try_catch_def split: sum.splits option.splits)

lemma saveToLocalStorage_returns: "\<exists>r. saveToLocalStorage P w = Inr r"
  by (simp add: saveToLocalStorage_def try_catch_def split: sum.splits option.splits)

lemma loadFromLocalStorage_syntax_error:
  assumes "localStorage w STORAGE_KEY = Some saved" and "JSON_parse P saved = None"
  shows "loadFromLocalStorage P w =
           Inr (Typed (if saved = [] then w
                       else w\<lparr>console_errors :=
                                console_errors w @ [''Failed to load from localStorage:'']\<rparr>))"
  using assms by (simp add: loadFromLocalStorage_def try_catch_def)

text \<open>
  C3. When the text does not parse, or parses to a value without a \<^verbatim>\<open>nodes\<close> field or
  without an \<^verbatim>\<open>edges\<close> field, \<^verbatim>\<open>importFromJSON\<close> returns with the nodes, the edges, the
  selection, the storage and the timers unchanged and one alert added. When the stored
  text does not parse, \<^verbatim>\<open>loadFromLocalStorage\<close> returns with all of these and the alerts
  unchanged. Neither action ever throws, whatever the text.
\<close>

theorem parse_errors_leave_state_unchanged:
  "((JSON_parse P text = None
      \<or> (\<exists>v. JSON_parse P text = Some v \<and> (\<not> has_field v ''nodes'' \<or> \<not> has_field v ''edges'')))
     \<longrightarrow> importFromJSON P text w = Inr (Typed (import_failed w)))
   \<and> nodes (import_failed w) = nodes w \<and> edges (import_failed w) = edges w
   \<and> selectedNode (import_failed w) = selectedNode w
   \<and> localStorage (import_failed w) = localStorage w \<and> timers (import_failed w) = timers w
   \<and> alerts (import_failed w) = alerts w @ [''Failed to import workflow. Please check the JSON format.'']
   \<and> (\<exists>r. importFromJSON P text w = Inr r)
   \<and> (\<forall>saved. localStorage w STORAGE_KEY = Some saved \<and> JSON_parse P saved = None \<longrightarrow>
         (\<exists>w'. loadFromLocalStorage P w = Inr (Typed w')
            \<and> nodes w' = nodes w \<and> edges w' = edges w \<and> selectedNode w' = selectedNode w
            \<and> localStorage w' = localStorage w \<and> timers w' = timers w \<and> alerts w' = alerts w))
   \<and> (\<exists>r. loadFromLocalStorage P w = Inr r)"
proof -
  have 1: "(JSON_parse P text = None
      \<or> (\<exists>v. JSON_parse P text = Some v \<and> (\<not> has_field v ''nodes'' \<or> \<not> has_field v ''edges'')))
     \<longrightarrow> importFromJSON P text w = Inr (Typed (import_failed w))"
    using importFromJSON_syntax_error importFromJSON_missing_field by blast
  have 2: "\<forall>saved. localStorage w STORAGE_KEY = Some saved \<and> JSON_parse P saved = None \<longrightarrow>
         (\<exists>w'. loadFromLocalStorage P w = Inr (Typed w')
            \<and> nodes w' = nodes w \<and> edges w' = edges w \<and> selectedNode w' = selectedNode w
            \<and> localStorage w' = localStorage w \<and> timers w' = timers w \<and> alerts w' = alerts w)"
  proof (intro allI impI)
    fix saved
    assume "localStorage w STORAGE_KEY = Some saved \<and> JSON_parse P saved = None"
    then have "loadFromLocalStorage P w =
           Inr (Typed (if saved = [] then w
                       else w\<lparr>console_errors :=
                                console_errors w @ [''Failed to load from localStorage:'']\<rparr>))"
      by (simp add: loadFromLocalStorage_syntax_error)
    then show "\<exists>w'. loadFromLocalStorage P w = Inr (Typed w')
            \<and> nodes w' = nodes w \<and> edges w' = edges w \<and> selectedNode w' = selectedNode w
            \<and> localStorage w' = localStorage w \<and> timers w' = timers w \<and> alerts w' = alerts w"
      by (cases "saved = []") simp_all
  qed
  have 3: "nodes (import_failed w) = nodes w" "edges (import_failed w) = edges w"
    "selectedNode (import_failed w) = selectedNode w"
    "localStorage (import_failed w) = localStorage w" "timers (import_failed w) = timers w"
    "alerts (import_failed w) = alerts w @ [''Failed to import workflow. Please check the JSON format.'']"
    by (simp_all add: import_failed_def)
  show ?thesis
    by (intro conjI 1 2 3 importFromJSON_returns loadFromLocalStorage_returns)
qed









lemma table_rejects:
  "JSON_parse table_platform ''invalid json'' = None"
  "JSON_parse table_platform ''{}'' = Some (JObj [])"
  "JSON_parse table_platform ''null'' = Some JNull"
  by (simp_all add: table_platform_def single_export_text_def single_save_text_def)

theorem parse_errors_leave_state_unchanged_witness:
  "JSON_parse table_platform ''invalid json'' = None
   \<and> importFromJSON table_platform ''invalid json'' test_world = Inr (Typed (import_failed test_world))
   \<and> JSON_parse table_platform ''{}'' = Some (JObj [])
   \<and> importFromJSON table_platform ''{}'' test_world = Inr (Typed (import_failed test_world))
   \<and> importFromJSON table_platform ''null'' test_world = Inr (Typed (import_failed test_world))
   \<and> nodes (import_failed test_world) = [test_node_1, test_node_2]
   \<and> alerts (import_failed test_world) = [''Failed to import workflow. Please check the JSON format.'']
   \<and> (\<exists>w'. loadFromLocalStorage table_platform
                (test_world\<lparr>localStorage := [STORAGE_KEY \<mapsto> ''invalid json'']\<rparr>) = Inr (Typed w')
          \<and> nodes w' = [test_node_1, test_node_2] \<and> edges w' = [test_edge]
          \<and> selectedNode w' = Some test_node_1)"
proof -
  let ?stored = "test_world\<lparr>localStorage := [STORAGE_KEY \<mapsto> ''invalid json'']\<rparr>"
  have i1: "importFromJSON table_platform ''invalid json'' test_world
              = Inr (Typed (import_failed test_world))"
    using parse_errors_leave_state_unchanged [of table_platform "''invalid json''" test_world] table_rejects(1) by blast
  have "\<not> has_field (JObj []) ''nodes''" by simp
  then have i2: "importFromJSON table_platform ''{}'' test_world
              = Inr (Typed (import_failed test_world))"
    using parse_errors_leave_state_unchanged [of table_platform "''{}''" test_world] table_rejects(2) by blast
  have "\<not> has_field JNull ''nodes''" by simp
  then have i3: "importFromJSON table_platform ''null'' test_world
              = Inr (Typed (import_failed test_world))"
    using parse_errors_leave_state_unchanged [of table_platform "''null''" test_world] table_rejects(3) by blast
  have n: "nodes (import_failed test_world) = [test_node_1, test_node_2]"
    and a: "alerts (import_failed test_world)
              = [''Failed to import workflow. Please check the JSON format.'']"
    by (simp_all add: import_failed_def test_world_def empty_world_def)
  have "localStorage ?stored STORAGE_KEY = Some ''invalid json''
        \<and> JSON_parse table_platform ''invalid json'' = None"
    by (simp add: table_rejects)
  with parse_errors_leave_state_unchanged [of table_platform "''invalid json''" ?stored]
  obtain w' where "loadFromLocalStorage table_platform ?stored = Inr (Typed w')"
    and "nodes w' = nodes ?stored" and "edges w' = edges ?stored"
    and "selectedNode w' = selectedNode ?stored"
    by blast
  then have l: "\<exists>w'. loadFromLocalStorage table_platform ?stored = Inr (Typed w')
          \<and> nodes w' = [test_node_1, test_node_2] \<and> edges w' = [test_edge]
          \<and> selectedNode w' = Some test_node_1"
    by (simp add: test_world_def empty_world_def)
  show ?thesis by (intro conjI table_rejects i1 i2 i3 n a l)
qed




end
